theory Spec2Isabelle
  imports Main "HOL-Library.Word" "HOL-Library.Sublist"
begin

section \<open>The C++ console template of nix-polyglot\<close>

text \<open>
  The template under \<^verbatim>\<open>templates/cpp/cpp-cli\<close> has three library functions
  (\<^verbatim>\<open>src/hello.cpp\<close>), a demonstration entry point (\<^verbatim>\<open>src/main.cpp\<close>) and a
  hand-written test runner (\<^verbatim>\<open>tests/test_hello.cpp\<close>).

  Modelling decisions:
  \<^item> a \<^verbatim>\<open>std::string\<close> is a \<^typ>\<open>string\<close>, a list of bytes; the decorative
    symbols of the source are written as their UTF-8 bytes;
  \<^item> the standard output stream is the string of all bytes written so far; a
    function that prints takes it and returns it extended (\<^verbatim>\<open>std::endl\<close> writes
    one newline and flushes);
  \<^item> a C++ \<^verbatim>\<open>int\<close> is a \<^typ>\<open>32 word\<close> read with \<^const>\<open>sint\<close>, compared with
    the signed order; \<open>+\<close> wraps where C++ leaves signed overflow undefined, and
    every theorem below stays inside the range where no overflow happens;
  \<^item> the preprocessor symbols that select text in \<^verbatim>\<open>get_build_info\<close> are the
    fields of a record, the input of the function.
\<close>

subsection \<open>Library behaviour the code relies on\<close>

text \<open>Decimal output of an integer, as \<^verbatim>\<open>operator<<\<close> on a stream in its default state.\<close>

definition digit_char :: "nat \<Rightarrow> char" where
  "digit_char d = ''0123456789'' ! d"

fun show_nat :: "nat \<Rightarrow> string" where
  "show_nat n = (if n < 10 then [digit_char n] else show_nat (n div 10) @ [digit_char (n mod 10)])"

declare show_nat.simps [simp del]

definition show_int :: "int \<Rightarrow> string" where
  "show_int i = (if i < 0 then CHR ''-'' # show_nat (nat (- i)) else show_nat (nat i))"

text \<open>
  \<^verbatim>\<open>std::string::find\<close> with a string argument: the first position at which the
  argument occurs, \<open>None\<close> for \<^verbatim>\<open>npos\<close>.
\<close>

fun str_find :: "string \<Rightarrow> string \<Rightarrow> nat option" where
  "str_find [] needle = (if needle = [] then Some 0 else None)"
| "str_find (c # cs) needle =
     (if prefix needle (c # cs) then Some 0 else map_option Suc (str_find cs needle))"

text \<open>
  The lines of a text: the pieces between newline bytes. The last piece is what follows
  the last newline; the pieces before it are the lines that were written in full.
\<close>

fun lines_from :: "string \<Rightarrow> string \<Rightarrow> string list" where
  "lines_from cur [] = [cur]"
| "lines_from cur (c # cs) =
     (if c = CHR 0x0A then cur # lines_from [] cs else lines_from (cur @ [c]) cs)"

definition text_lines :: "string \<Rightarrow> string list" where
  "text_lines s = lines_from [] s"

definition written_lines :: "string \<Rightarrow> string list" where
  "written_lines s = butlast (text_lines s)"

subsection \<open>hello.cpp\<close>

definition rocket :: string where
  "rocket = [CHR 0xF0, CHR 0x9F, CHR 0x9A, CHR 0x80]"

definition wrench :: string where
  "wrench = [CHR 0xF0, CHR 0x9F, CHR 0x94, CHR 0xA7]"

definition package :: string where
  "package = [CHR 0xF0, CHR 0x9F, CHR 0x93, CHR 0xA6]"

definition get_greeting :: "string \<Rightarrow> string" where
  "get_greeting name = ''Hello, '' @ name @ '' from C++! '' @ rocket"

text \<open>The declaration in \<^verbatim>\<open>hello.hpp\<close> gives the parameter the default \<^verbatim>\<open>"World"\<close>.\<close>

definition get_greeting_default :: string where
  "get_greeting_default = get_greeting ''World''"

text \<open>
  The loop of \<^verbatim>\<open>print_count\<close>: \<^verbatim>\<open>for (int i = 0; i < count; ++i)\<close>, each round
  writing the label, the index and a newline.
\<close>

function print_count_loop :: "32 word \<Rightarrow> 32 word \<Rightarrow> string \<Rightarrow> string" where
  "print_count_loop i count out =
     (if i <s count
      then print_count_loop (i + 1) count (out @ ''Count: '' @ show_int (sint i) @ ''\<newline>'')
      else out)"
  by pat_completeness auto
termination
proof (relation "measure (\<lambda>(i, count, out). nat (sint count - sint i))")
  show "wf (measure (\<lambda>(i, count, out). nat (sint count - sint i)))"
    by simp
next
  fix i count :: "32 word" and out :: string
  assume lt: "i <s count"
  have "sint i < sint count"
    using lt by (simp add: word_sless_alt)
  moreover have "sint count < 2 ^ 31"
    using sint_lt [of count] by simp
  moreover have "- (2 ^ 31) \<le> sint i"
    using sint_ge [of i] by simp
  ultimately have "sint (i + 1) = sint i + 1"
    by (simp add: sint_word_ariths signed_take_bit_int_eq_self)
  with \<open>sint i < sint count\<close>
  show "((i + 1, count, out @ ''Count: '' @ show_int (sint i) @ ''\<newline>''), (i, count, out))
          \<in> measure (\<lambda>(i, count, out). nat (sint count - sint i))"
    by simp
qed

declare print_count_loop.simps [simp del]

text \<open>What one round of the loop writes, for the index \<open>k\<close>.\<close>

definition count_line :: "nat \<Rightarrow> string" where
  "count_line k = ''Count: '' @ show_int (int k) @ ''\<newline>''"

definition print_count :: "32 word \<Rightarrow> string \<Rightarrow> string" where
  "print_count count out = print_count_loop 0 count (out @ ''Counting demonstration:\<newline>'')"

text \<open>
  The compile-time inputs of \<^verbatim>\<open>get_build_info\<close>: whether \<^verbatim>\<open>DEBUG_BUILD\<close> and
  \<^verbatim>\<open>RELEASE_BUILD\<close> are defined, whether \<^verbatim>\<open>__clang__\<close> is defined and then the
  values of \<^verbatim>\<open>__clang_major__\<close> and \<^verbatim>\<open>__clang_minor__\<close>, whether \<^verbatim>\<open>__GNUC__\<close> is
  defined and then its value and that of \<^verbatim>\<open>__GNUC_MINOR__\<close>, and the value of
  \<^verbatim>\<open>__cplusplus\<close>. Clang defines \<^verbatim>\<open>__GNUC__\<close> as well, so both can be present.
\<close>

record build_config =
  DEBUG_BUILD :: bool
  RELEASE_BUILD :: bool
  clang :: "(int \<times> int) option"
  gnuc :: "(int \<times> int) option"
  cplusplus :: int

text \<open>The first conditional block of \<^verbatim>\<open>get_build_info\<close>.\<close>

definition build_mode :: "build_config \<Rightarrow> string" where
  "build_mode cfg =
     (if DEBUG_BUILD cfg then wrench @ '' Running DEBUG build (dev mode)''
      else if RELEASE_BUILD cfg then rocket @ '' Running RELEASE build (optimized)''
      else package @ '' Standard build'')"

text \<open>The second conditional block.\<close>

definition compiler_id :: "build_config \<Rightarrow> string" where
  "compiler_id cfg =
     (case clang cfg of
        Some (major, minor) \<Rightarrow> ''Clang '' @ show_int major @ ''.'' @ show_int minor
      | None \<Rightarrow>
          (case gnuc cfg of
             Some (major, minor) \<Rightarrow> ''GCC '' @ show_int major @ ''.'' @ show_int minor
           | None \<Rightarrow> ''Unknown compiler''))"

definition get_build_info :: "build_config \<Rightarrow> string" where
  "get_build_info cfg =
     build_mode cfg @ ''\<newline>Compiler: '' @ compiler_id cfg
       @ ''\<newline>C++ Standard: '' @ show_int (cplusplus cfg)"

subsection \<open>main.cpp\<close>

text \<open>The entry point returns its exit status; the second component is what it printed.\<close>

definition main :: "build_config \<Rightarrow> int \<times> string" where
  "main cfg =
     (let out = get_greeting ''World'' @ ''\<newline>'';
          out = out @ ''This is a C++ console application created with nix-polyglot.\<newline>''
                  @ ''\<newline>'';
          out = out @ get_build_info cfg @ ''\<newline>'' @ ''\<newline>'';
          out = print_count 5 out
      in (0, out))"

subsection \<open>test_hello.cpp\<close>

definition check_mark :: string where
  "check_mark = [CHR 0xE2, CHR 0x9C, CHR 0x85]"

definition cross_mark :: string where
  "cross_mark = [CHR 0xE2, CHR 0x9D, CHR 0x8C]"

definition bar_chart :: string where
  "bar_chart = [CHR 0xF0, CHR 0x9F, CHR 0x93, CHR 0x8A]"

definition party :: string where
  "party = [CHR 0xF0, CHR 0x9F, CHR 0x8E, CHR 0x89]"

definition collision :: string where
  "collision = [CHR 0xF0, CHR 0x9F, CHR 0x92, CHR 0xA5]"

text \<open>The two global counters of the runner, and its standard output.\<close>

record harness =
  test_count :: "32 word"
  test_passed :: "32 word"
  stdout :: string

definition test_assert :: "bool \<Rightarrow> string \<Rightarrow> harness \<Rightarrow> harness" where
  "test_assert condition test_name s =
     (let s = s\<lparr>test_count := test_count s + 1\<rparr>
      in if condition
         then s\<lparr>test_passed := test_passed s + 1,
                stdout := stdout s @ check_mark @ '' PASS: '' @ test_name @ ''\<newline>''\<rparr>
         else s\<lparr>stdout := stdout s @ cross_mark @ '' FAIL: '' @ test_name @ ''\<newline>''\<rparr>)"

text \<open>
  The five checks of \<^verbatim>\<open>main\<close>, in the order of the source: each is the condition
  handed to \<^verbatim>\<open>test_assert\<close> and the name of the check.
\<close>

definition checks :: "build_config \<Rightarrow> (bool \<times> string) list" where
  "checks cfg =
     (let greeting = get_greeting ''Test'';
          default_greeting = get_greeting_default;
          build_info = get_build_info cfg
      in [(str_find greeting ''Hello, Test'' \<noteq> None,
            ''get_greeting should contain 'Hello, Test'' @ [CHR 0x27]),
          (str_find greeting ''C++'' \<noteq> None,
            ''get_greeting should contain 'C++'' @ [CHR 0x27]),
          (str_find default_greeting ''World'' \<noteq> None,
            ''default greeting should contain 'World'' @ [CHR 0x27]),
          (\<not> (build_info = []), ''build_info should not be empty''),
          (str_find build_info ''build'' \<noteq> None,
            ''build_info should contain 'build'' @ [CHR 0x27])])"

text \<open>Calling \<^verbatim>\<open>test_assert\<close> on a sequence of checks, one after the other.\<close>

fun run_checks :: "(bool \<times> string) list \<Rightarrow> harness \<Rightarrow> harness" where
  "run_checks [] s = s"
| "run_checks ((condition, test_name) # cs) s = run_checks cs (test_assert condition test_name s)"

text \<open>The state in which the first check runs: both counters 0, the banner printed.\<close>

definition start :: harness where
  "start = \<lparr>test_count = 0, test_passed = 0, stdout = ''Running C++ tests...\<newline>'' @ ''\<newline>''\<rparr>"

text \<open>The number the runner prints as failed: \<^verbatim>\<open>test_count - test_passed\<close>.\<close>

definition test_failed :: "harness \<Rightarrow> 32 word" where
  "test_failed s = test_count s - test_passed s"

text \<open>The end of \<^verbatim>\<open>main\<close>: the three totals, the verdict and the exit status.\<close>

definition results :: "harness \<Rightarrow> int \<times> string" where
  "results s =
     (let out = stdout s @ ''\<newline>'' @ bar_chart @ '' Test Results:\<newline>'';
          out = out @ ''Tests run: '' @ show_int (sint (test_count s)) @ ''\<newline>'';
          out = out @ ''Tests passed: '' @ show_int (sint (test_passed s)) @ ''\<newline>'';
          out = out @ ''Tests failed: '' @ show_int (sint (test_failed s)) @ ''\<newline>''
      in if test_passed s = test_count s
         then (0, out @ party @ '' All tests passed!\<newline>'')
         else (1, out @ collision @ '' Some tests failed!\<newline>''))"

definition test_main :: "build_config \<Rightarrow> int \<times> string" where
  "test_main cfg = results (run_checks (checks cfg) start)"

section \<open>Auxiliary facts\<close>



lemma str_find_sublist: "str_find hay needle \<noteq> None \<longleftrightarrow> sublist needle hay"
  by (induction hay) (auto simp: sublist_Cons_right)

lemma digit_char_not_newline: "d < 10 \<Longrightarrow> digit_char d \<noteq> CHR 0x0A"
proof -
  assume "d < 10"
  then have "d \<in> {0, 1, 2, 3, 4, 5, 6, 7, 8, 9}"
    by auto
  then show ?thesis
    by (auto simp: digit_char_def)
qed

lemma show_nat_no_newline: "CHR 0x0A \<notin> set (show_nat n)"
proof (induction n rule: show_nat.induct)
  case (1 n)
  show ?case
  proof (cases "n < 10")
    case True
    then show ?thesis
      using digit_char_not_newline [of n] by (subst show_nat.simps) auto
  next
    case False
    have "n mod 10 < 10" by simp
    then have "digit_char (n mod 10) \<noteq> CHR 0x0A"
      by (rule digit_char_not_newline)
    with False 1 show ?thesis
      by (subst show_nat.simps) auto
  qed
qed

lemma show_int_no_newline: "CHR 0x0A \<notin> set (show_int i)"
  by (simp add: show_int_def show_nat_no_newline)

lemma lines_from_append:
  "CHR 0x0A \<notin> set xs \<Longrightarrow> lines_from cur (xs @ CHR 0x0A # ys) = (cur @ xs) # lines_from [] ys"
  by (induction xs arbitrary: cur) auto

lemma lines_from_no_newline: "CHR 0x0A \<notin> set xs \<Longrightarrow> lines_from cur xs = [cur @ xs]"
  by (induction xs arbitrary: cur) auto

lemma text_lines_no_newline: "CHR 0x0A \<notin> set xs \<Longrightarrow> text_lines xs = [xs]"
  by (simp add: text_lines_def lines_from_no_newline)

lemma text_lines_append:
  "CHR 0x0A \<notin> set xs \<Longrightarrow> text_lines (xs @ CHR 0x0A # ys) = xs # text_lines ys"
  by (simp add: text_lines_def lines_from_append)

lemma sint_succ:
  fixes i count :: "32 word"
  assumes "i <s count"
  shows "sint (i + 1) = sint i + 1"
proof -
  have "sint i < sint count"
    using assms by (simp add: word_sless_alt)
  moreover have "sint count < 2 ^ 31"
    using sint_lt [of count] by simp
  moreover have "- (2 ^ 31) \<le> sint i"
    using sint_ge [of i] by simp
  ultimately show ?thesis
    by (simp add: sint_word_ariths signed_take_bit_int_eq_self)
qed

lemma print_count_loop_done: "\<not> i <s count \<Longrightarrow> print_count_loop i count out = out"
  by (subst print_count_loop.simps) (simp only: if_False)

lemma print_count_loop_eq:
  "0 \<le> sint i \<Longrightarrow>
   print_count_loop i count out = out @ concat (map count_line [nat (sint i)..<nat (sint count)])"
proof (induction i count out rule: print_count_loop.induct)
  case (1 i count out)
  show ?case
  proof (cases "i <s count")
    case True
    then have lt: "sint i < sint count"
      by (simp add: word_sless_alt)
    have succ: "sint (i + 1) = sint i + 1"
      using True by (rule sint_succ)
    have nonneg: "0 \<le> sint (i + 1)"
      unfolding succ using "1.prems" by linarith
    have next_index: "nat (sint (i + 1)) = Suc (nat (sint i))"
      unfolding succ using "1.prems" by linarith
    have "nat (sint i) < nat (sint count)"
      using lt "1.prems" by linarith
    then have upt: "[nat (sint i)..<nat (sint count)] =
        nat (sint i) # [nat (sint (i + 1))..<nat (sint count)]"
      unfolding next_index by (rule upt_conv_Cons)
    have line: "''Count: '' @ show_int (sint i) @ ''\<newline>'' = count_line (nat (sint i))"
      using "1.prems" by (simp add: count_line_def)
    have "print_count_loop i count out =
        print_count_loop (i + 1) count (out @ ''Count: '' @ show_int (sint i) @ ''\<newline>'')"
      using True by (subst print_count_loop.simps) (simp only: if_True)
    also have "\<dots> = (out @ ''Count: '' @ show_int (sint i) @ ''\<newline>'')
        @ concat (map count_line [nat (sint (i + 1))..<nat (sint count)])"
      using True nonneg by (rule "1.IH")
    also have "\<dots> = out @ concat (map count_line [nat (sint i)..<nat (sint count)])"
      unfolding line upt by (simp only: append_assoc list.map concat.simps)
    finally show ?thesis .
  next
    case False
    then have "sint count \<le> sint i"
      by (simp add: word_sless_alt)
    then have "nat (sint count) \<le> nat (sint i)"
      by linarith
    then have empty: "[nat (sint i)..<nat (sint count)] = []"
      by simp
    show ?thesis
      unfolding empty print_count_loop_done [OF False] by simp
  qed
qed

lemma print_count_eq:
  "print_count count out =
     out @ ''Counting demonstration:\<newline>'' @ concat (map count_line [0..<nat (sint count)])"
  using print_count_loop_eq [of 0 count] by (simp add: print_count_def)

lemma text_lines_count_lines:
  "text_lines (concat (map count_line ks)) =
     map (\<lambda>k. ''Count: '' @ show_int (int k)) ks @ [[]]"
proof (induction ks)
  case Nil
  show ?case by (simp add: text_lines_def)
next
  case (Cons k ks)
  have "CHR 0x0A \<notin> set (''Count: '' @ show_int (int k))"
    by (simp add: show_int_no_newline)
  then have "text_lines ((''Count: '' @ show_int (int k)) @ CHR 0x0A # concat (map count_line ks))
      = (''Count: '' @ show_int (int k)) # text_lines (concat (map count_line ks))"
    by (rule text_lines_append)
  moreover have "concat (map count_line (k # ks)) =
      (''Count: '' @ show_int (int k)) @ CHR 0x0A # concat (map count_line ks)"
    by (simp add: count_line_def)
  ultimately show ?case
    by (simp only: Cons.IH list.map append_Cons)
qed


section \<open>The counter printer\<close>


text \<open>
  Claim C1. For a count that is not negative, \<^verbatim>\<open>print_count\<close> appends to the output the
  header line and then one line per index \<open>0, 1, \<dots>, count - 1\<close>, in this order, each made
  of the label \<^verbatim>\<open>Count: \<close> and the index in decimal. Read as lines, what it writes is the
  header followed by exactly \<open>count\<close> body lines; for the count 0 the header alone.
\<close>

theorem print_count_lines:
  assumes "0 \<le>s count"
  shows "print_count count out =
           out @ ''Counting demonstration:\<newline>'' @ concat (map count_line [0..<nat (sint count)])
       \<and> written_lines (print_count count []) =
           ''Counting demonstration:'' #
             map (\<lambda>k. ''Count: '' @ show_int (int k)) [0..<nat (sint count)]
       \<and> length (written_lines (print_count count [])) = 1 + nat (sint count)
       \<and> int (nat (sint count)) = sint count"
proof -
  have nl: "CHR 0x0A \<notin> set ''Counting demonstration:''"
    by simp
  have "print_count count [] =
      ''Counting demonstration:'' @ CHR 0x0A # concat (map count_line [0..<nat (sint count)])"
    by (simp add: print_count_eq)
  then have "text_lines (print_count count []) =
      ''Counting demonstration:'' # text_lines (concat (map count_line [0..<nat (sint count)]))"
    using text_lines_append [OF nl] by simp
  then have lines: "written_lines (print_count count []) =
      ''Counting demonstration:'' #
        map (\<lambda>k. ''Count: '' @ show_int (int k)) [0..<nat (sint count)]"
    by (simp add: written_lines_def text_lines_count_lines)
  have "0 \<le> sint count"
    using assms by (simp add: word_sle_eq)
  then have "int (nat (sint count)) = sint count"
    by simp
  with lines show ?thesis
    by (simp add: print_count_eq)
qed

theorem print_count_lines_witness:
  "(0 :: 32 word) \<le>s 5 \<and>
   print_count 5 [] = ''Counting demonstration:\<newline>'' @ ''Count: 0\<newline>'' @ ''Count: 1\<newline>''
      @ ''Count: 2\<newline>'' @ ''Count: 3\<newline>'' @ ''Count: 4\<newline>'' \<and>
   written_lines (print_count 5 []) =
     [''Counting demonstration:'', ''Count: 0'', ''Count: 1'', ''Count: 2'', ''Count: 3'', ''Count: 4'']"
proof -
  have h: "(0 :: 32 word) \<le>s 5"
    by (simp add: word_sle_eq)
  have n: "nat (sint (5 :: 32 word)) = 5"
    by simp
  have u: "[0..<5] = [0, 1, 2, 3, 4 :: nat]"
    by (simp add: upt_rec)
  show ?thesis
    using h print_count_lines [OF h, of "[]"]
    unfolding n u
    by (simp add: count_line_def show_int_def show_nat.simps digit_char_def written_lines_def text_lines_def)
qed

text \<open>
  Claim C10. \<^verbatim>\<open>print_count\<close> returns for every 32-bit count (the loop is a total
  function, its termination proved above), and for a negative count it writes the header
  line and nothing else.
\<close>

theorem print_count_negative:
  assumes "count <s 0"
  shows "print_count count out = out @ ''Counting demonstration:\<newline>''
       \<and> written_lines (print_count count []) = [''Counting demonstration:'']"
proof -
  have "sint count < 0"
    using assms by (simp add: word_sless_alt)
  then have "nat (sint count) = 0"
    by simp
  then have eq: "print_count count out = out @ ''Counting demonstration:\<newline>''" for out
    by (simp add: print_count_eq)
  show ?thesis
    unfolding eq by (simp add: written_lines_def text_lines_def)
qed

theorem print_count_negative_witness:
  "(- 1 :: 32 word) <s 0 \<and> print_count (- 1) ''x'' = ''xCounting demonstration:\<newline>''
     \<and> written_lines (print_count (- 1) []) = [''Counting demonstration:'']"
proof -
  have h: "(- 1 :: 32 word) <s 0"
    by (simp add: word_sless_alt)
  show ?thesis
    using h print_count_negative [OF h, of "''x''"] by simp
qed

section \<open>The greeting producer\<close>

text \<open>
  Claim C9. For every name, \<^verbatim>\<open>get_greeting\<close> returns \<^verbatim>\<open>"Hello, "\<close>, the name and the
  fixed ending \<^verbatim>\<open>" from C++! "\<close> with the rocket symbol (four bytes in UTF-8), and nothing
  else: the result starts with the same seven bytes and ends with the same fifteen bytes
  whatever the name is.
\<close>

theorem get_greeting_exact:
  "get_greeting name = ''Hello, '' @ name @ '' from C++! '' @ [CHR 0xF0, CHR 0x9F, CHR 0x9A, CHR 0x80]
   \<and> prefix ''Hello, '' (get_greeting name)
   \<and> suffix ('' from C++! '' @ [CHR 0xF0, CHR 0x9F, CHR 0x9A, CHR 0x80]) (get_greeting name)
   \<and> length (get_greeting name) = length name + 22"
proof -
  have eq: "get_greeting name = ''Hello, '' @ name @ '' from C++! '' @ [CHR 0xF0, CHR 0x9F, CHR 0x9A, CHR 0x80]"
    by (simp add: get_greeting_def rocket_def)
  have "suffix ('' from C++! '' @ [CHR 0xF0, CHR 0x9F, CHR 0x9A, CHR 0x80]) (get_greeting name)"
    unfolding eq suffix_def by (rule exI [of _ "''Hello, '' @ name"]) simp
  moreover have "prefix ''Hello, '' (get_greeting name)"
    unfolding eq by (rule prefixI) simp
  ultimately show ?thesis
    using eq by simp
qed

theorem get_greeting_exact_witness:
  "get_greeting ''Test'' = ''Hello, Test from C++! '' @ [CHR 0xF0, CHR 0x9F, CHR 0x9A, CHR 0x80]
   \<and> get_greeting [] = ''Hello,  from C++! '' @ [CHR 0xF0, CHR 0x9F, CHR 0x9A, CHR 0x80]"
  using get_greeting_exact [of "''Test''"] get_greeting_exact [of "[]"] by simp

lemma sublist_get_greeting: "sublist name (get_greeting name)"
  unfolding get_greeting_def by (rule sublist_appendI)

lemma sublist_marker: "sublist ('' from C++! '' @ rocket) (get_greeting name)"
  unfolding get_greeting_def sublist_def
  by (rule exI [of _ "''Hello, '' @ name"], rule exI [of _ "[]"]) simp

lemma sublist_cpp: "sublist ''C++'' (get_greeting name)"
  unfolding get_greeting_def sublist_def
  by (rule exI [of _ "''Hello, '' @ name @ '' from ''"], rule exI [of _ "''! '' @ rocket"]) simp

text \<open>
  Claim C4. For every name, the empty one included, \<^verbatim>\<open>find\<close> locates the name in the
  greeting, and it locates the marker \<^verbatim>\<open>C++\<close> as well as the whole fixed ending. The
  function is a total function from strings to strings: it reads and changes no state,
  and has a result for every argument.
\<close>

theorem get_greeting_contains:
  "str_find (get_greeting name) name \<noteq> None
   \<and> sublist name (get_greeting name)
   \<and> str_find (get_greeting name) ''C++'' \<noteq> None
   \<and> str_find (get_greeting name) ('' from C++! '' @ rocket) \<noteq> None
   \<and> str_find (get_greeting []) [] = Some 0"
proof -
  have "str_find (get_greeting []) [] = Some 0"
    by (simp add: get_greeting_def)
  moreover have "str_find (get_greeting name) name \<noteq> None"
    using sublist_get_greeting by (rule str_find_sublist [THEN iffD2])
  moreover have "str_find (get_greeting name) ''C++'' \<noteq> None"
    using sublist_cpp by (rule str_find_sublist [THEN iffD2])
  moreover have "str_find (get_greeting name) ('' from C++! '' @ rocket) \<noteq> None"
    using sublist_marker by (rule str_find_sublist [THEN iffD2])
  ultimately show ?thesis
    using sublist_get_greeting [of name] by blast
qed

theorem get_greeting_contains_witness:
  "str_find (get_greeting ''Test'') ''Test'' = Some 7
   \<and> str_find (get_greeting ''Test'') ''C++'' = Some 17
   \<and> str_find (get_greeting []) ''C++'' = Some 13"
  using get_greeting_contains [of "''Test''"] get_greeting_contains [of "[]"]
  by (simp add: get_greeting_def rocket_def)

text \<open>
  Claim C7. Called without an argument, \<^verbatim>\<open>get_greeting\<close> uses the default of its
  declaration, and the greeting it returns contains \<^verbatim>\<open>World\<close>.
\<close>

theorem get_greeting_default_world:
  "str_find get_greeting_default ''World'' = Some 7
   \<and> sublist ''World'' get_greeting_default
   \<and> get_greeting_default = ''Hello, World from C++! '' @ rocket"
proof -
  have "str_find get_greeting_default ''World'' = Some 7"
    by (simp add: get_greeting_default_def get_greeting_def)
  moreover from this have "sublist ''World'' get_greeting_default"
    using str_find_sublist [of get_greeting_default "''World''"] by simp
  ultimately show ?thesis
    by (simp add: get_greeting_default_def get_greeting_def)
qed

section \<open>The build-info reporter\<close>

lemma build_mode_cases:
  "build_mode cfg =
     (if DEBUG_BUILD cfg then [CHR 0xF0, CHR 0x9F, CHR 0x94, CHR 0xA7] @ '' Running DEBUG build (dev mode)''
      else if RELEASE_BUILD cfg then [CHR 0xF0, CHR 0x9F, CHR 0x9A, CHR 0x80] @ '' Running RELEASE build (optimized)''
      else [CHR 0xF0, CHR 0x9F, CHR 0x93, CHR 0xA6] @ '' Standard build'')"
  by (simp add: build_mode_def wrench_def rocket_def package_def)

lemma build_mode_no_newline: "CHR 0x0A \<notin> set (build_mode cfg)"
  by (simp add: build_mode_cases)

lemma compiler_id_no_newline: "CHR 0x0A \<notin> set (compiler_id cfg)"
  by (simp add: compiler_id_def show_int_no_newline split: option.split prod.split)

lemma text_lines_get_build_info:
  "text_lines (get_build_info cfg) =
     [build_mode cfg, ''Compiler: '' @ compiler_id cfg, ''C++ Standard: '' @ show_int (cplusplus cfg)]"
proof -
  have third: "text_lines (''C++ Standard: '' @ show_int (cplusplus cfg)) =
      [''C++ Standard: '' @ show_int (cplusplus cfg)]"
    by (rule text_lines_no_newline) (simp add: show_int_no_newline)
  have "CHR 0x0A \<notin> set (''Compiler: '' @ compiler_id cfg)"
    by (simp add: compiler_id_no_newline)
  then have second: "text_lines ((''Compiler: '' @ compiler_id cfg) @ CHR 0x0A #
        ''C++ Standard: '' @ show_int (cplusplus cfg)) =
      (''Compiler: '' @ compiler_id cfg) # text_lines (''C++ Standard: '' @ show_int (cplusplus cfg))"
    by (rule text_lines_append)
  have first: "text_lines (build_mode cfg @ CHR 0x0A # (''Compiler: '' @ compiler_id cfg) @ CHR 0x0A #
        ''C++ Standard: '' @ show_int (cplusplus cfg)) =
      build_mode cfg # text_lines ((''Compiler: '' @ compiler_id cfg) @ CHR 0x0A #
        ''C++ Standard: '' @ show_int (cplusplus cfg))"
    using build_mode_no_newline by (rule text_lines_append)
  have "get_build_info cfg = build_mode cfg @ CHR 0x0A # (''Compiler: '' @ compiler_id cfg) @ CHR 0x0A #
        ''C++ Standard: '' @ show_int (cplusplus cfg)"
    by (simp add: get_build_info_def)
  then show ?thesis
    by (simp only: first second third)
qed

lemma str_find_append:
  assumes "str_find xs needle \<noteq> None"
  shows "str_find (xs @ ys) needle \<noteq> None"
proof -
  from assms have "sublist needle xs"
    by (rule str_find_sublist [THEN iffD1])
  then obtain ps ss where "xs = ps @ needle @ ss"
    unfolding sublist_def by blast
  then have "xs @ ys = ps @ needle @ (ss @ ys)"
    by simp
  then have "sublist needle (xs @ ys)"
    unfolding sublist_def by blast
  then show ?thesis
    by (rule str_find_sublist [THEN iffD2])
qed

lemma build_mode_build: "str_find (build_mode cfg) ''build'' \<noteq> None"
  by (simp add: build_mode_cases)

text \<open>
  Claim C3. For every configuration the build information is not empty; its first line is
  the build-mode label, which is one of three fixed texts; exactly one of the words
  \<^verbatim>\<open>DEBUG\<close>, \<^verbatim>\<open>RELEASE\<close> and \<^verbatim>\<open>Standard\<close> occurs in the label; and the label is the
  standard one exactly when neither \<^verbatim>\<open>DEBUG_BUILD\<close> nor \<^verbatim>\<open>RELEASE_BUILD\<close> is defined.
  When both are defined the debug label is chosen.
\<close>

theorem get_build_info_mode:
  "get_build_info cfg \<noteq> []
   \<and> hd (text_lines (get_build_info cfg)) = build_mode cfg
   \<and> build_mode cfg \<in> {wrench @ '' Running DEBUG build (dev mode)'',
         rocket @ '' Running RELEASE build (optimized)'', package @ '' Standard build''}
   \<and> (str_find (build_mode cfg) ''DEBUG'' \<noteq> None) = DEBUG_BUILD cfg
   \<and> (str_find (build_mode cfg) ''RELEASE'' \<noteq> None) = (\<not> DEBUG_BUILD cfg \<and> RELEASE_BUILD cfg)
   \<and> (str_find (build_mode cfg) ''Standard'' \<noteq> None) = (\<not> DEBUG_BUILD cfg \<and> \<not> RELEASE_BUILD cfg)
   \<and> length (filter (\<lambda>w. str_find (build_mode cfg) w \<noteq> None) [''DEBUG'', ''RELEASE'', ''Standard'']) = 1
   \<and> (build_mode cfg = package @ '' Standard build'') = (\<not> DEBUG_BUILD cfg \<and> \<not> RELEASE_BUILD cfg)
   \<and> str_find (get_build_info cfg) ''build'' \<noteq> None"
proof -
  have nonempty: "get_build_info cfg \<noteq> []"
    by (simp add: get_build_info_def)
  have first: "hd (text_lines (get_build_info cfg)) = build_mode cfg"
    by (simp add: text_lines_get_build_info)
  have member: "build_mode cfg \<in> {wrench @ '' Running DEBUG build (dev mode)'',
         rocket @ '' Running RELEASE build (optimized)'', package @ '' Standard build''}"
    by (simp add: build_mode_def)
  have debug: "(str_find (build_mode cfg) ''DEBUG'' \<noteq> None) = DEBUG_BUILD cfg"
    by (simp add: build_mode_cases)
  have release: "(str_find (build_mode cfg) ''RELEASE'' \<noteq> None) = (\<not> DEBUG_BUILD cfg \<and> RELEASE_BUILD cfg)"
    by (simp add: build_mode_cases)
  have standard: "(str_find (build_mode cfg) ''Standard'' \<noteq> None) = (\<not> DEBUG_BUILD cfg \<and> \<not> RELEASE_BUILD cfg)"
    by (simp add: build_mode_cases)
  have one: "length (filter (\<lambda>w. str_find (build_mode cfg) w \<noteq> None) [''DEBUG'', ''RELEASE'', ''Standard'']) = 1"
    unfolding filter.simps debug release standard by simp
  have fallback: "(build_mode cfg = package @ '' Standard build'') = (\<not> DEBUG_BUILD cfg \<and> \<not> RELEASE_BUILD cfg)"
    by (simp add: build_mode_cases package_def)
  have "str_find (build_mode cfg @ ''\<newline>Compiler: '' @ compiler_id cfg
       @ ''\<newline>C++ Standard: '' @ show_int (cplusplus cfg)) ''build'' \<noteq> None"
    using build_mode_build by (rule str_find_append)
  then have build: "str_find (get_build_info cfg) ''build'' \<noteq> None"
    unfolding get_build_info_def .
  from nonempty first member debug release standard one fallback build show ?thesis
    by blast
qed

theorem get_build_info_mode_witness:
  "hd (text_lines (get_build_info
     \<lparr>DEBUG_BUILD = False, RELEASE_BUILD = False, clang = None, gnuc = Some (13, 2),
      cplusplus = 201703\<rparr>)) = [CHR 0xF0, CHR 0x9F, CHR 0x93, CHR 0xA6] @ '' Standard build''
   \<and> hd (text_lines (get_build_info
     \<lparr>DEBUG_BUILD = True, RELEASE_BUILD = True, clang = None, gnuc = Some (13, 2),
      cplusplus = 201703\<rparr>)) = [CHR 0xF0, CHR 0x9F, CHR 0x94, CHR 0xA7] @ '' Running DEBUG build (dev mode)''"
  using get_build_info_mode [of "\<lparr>DEBUG_BUILD = False, RELEASE_BUILD = False, clang = None,
      gnuc = Some (13, 2), cplusplus = 201703\<rparr>"]
    get_build_info_mode [of "\<lparr>DEBUG_BUILD = True, RELEASE_BUILD = True, clang = None,
      gnuc = Some (13, 2), cplusplus = 201703\<rparr>"]
  by (simp add: build_mode_cases)

text \<open>
  Claim C6. The build information has three lines, for every configuration; the second is
  \<^verbatim>\<open>Compiler: \<close> followed by \<^verbatim>\<open>Clang\<close> with its major and minor version when
  \<^verbatim>\<open>__clang__\<close> is defined, by \<^verbatim>\<open>GCC\<close> with its major and minor version when only
  \<^verbatim>\<open>__GNUC__\<close> is defined, and by \<^verbatim>\<open>Unknown compiler\<close> when neither is.
\<close>

theorem get_build_info_compiler:
  "text_lines (get_build_info cfg) =
     [build_mode cfg, ''Compiler: '' @ compiler_id cfg,
      ''C++ Standard: '' @ show_int (cplusplus cfg)]
   \<and> (clang cfg = Some (major, minor) \<longrightarrow>
        compiler_id cfg = ''Clang '' @ show_int major @ ''.'' @ show_int minor)
   \<and> (clang cfg = None \<and> gnuc cfg = Some (major, minor) \<longrightarrow>
        compiler_id cfg = ''GCC '' @ show_int major @ ''.'' @ show_int minor)
   \<and> (clang cfg = None \<and> gnuc cfg = None \<longrightarrow> compiler_id cfg = ''Unknown compiler'')"
proof -
  have "clang cfg = Some (major, minor) \<longrightarrow>
        compiler_id cfg = ''Clang '' @ show_int major @ ''.'' @ show_int minor"
    by (simp add: compiler_id_def)
  moreover have "clang cfg = None \<and> gnuc cfg = Some (major, minor) \<longrightarrow>
        compiler_id cfg = ''GCC '' @ show_int major @ ''.'' @ show_int minor"
    by (simp add: compiler_id_def)
  moreover have "clang cfg = None \<and> gnuc cfg = None \<longrightarrow> compiler_id cfg = ''Unknown compiler''"
    by (simp add: compiler_id_def)
  ultimately show ?thesis
    using text_lines_get_build_info [of cfg] by blast
qed

theorem get_build_info_compiler_witness:
  "text_lines (get_build_info
     \<lparr>DEBUG_BUILD = False, RELEASE_BUILD = True, clang = Some (17, 0), gnuc = Some (4, 2),
      cplusplus = 201703\<rparr>) ! 1 = ''Compiler: Clang 17.0''
   \<and> text_lines (get_build_info
     \<lparr>DEBUG_BUILD = False, RELEASE_BUILD = True, clang = None, gnuc = Some (13, 2),
      cplusplus = 201703\<rparr>) ! 1 = ''Compiler: GCC 13.2''
   \<and> text_lines (get_build_info
     \<lparr>DEBUG_BUILD = False, RELEASE_BUILD = True, clang = None, gnuc = None,
      cplusplus = 199711\<rparr>) ! 1 = ''Compiler: Unknown compiler''"
  using get_build_info_compiler [of "\<lparr>DEBUG_BUILD = False, RELEASE_BUILD = True,
      clang = Some (17, 0), gnuc = Some (4, 2), cplusplus = 201703\<rparr>" 17 0]
    get_build_info_compiler [of "\<lparr>DEBUG_BUILD = False, RELEASE_BUILD = True,
      clang = None, gnuc = Some (13, 2), cplusplus = 201703\<rparr>" 13 2]
    get_build_info_compiler [of "\<lparr>DEBUG_BUILD = False, RELEASE_BUILD = True,
      clang = None, gnuc = None, cplusplus = 199711\<rparr>" 0 0]
  by (simp add: show_int_def show_nat.simps digit_char_def)

section \<open>The demonstration entry point\<close>

text \<open>
  Claim C8. For every configuration the demonstration entry point prints the greeting for
  \<^verbatim>\<open>World\<close>, the descriptive line, the build information and the counter for the count
  5, in this order and with nothing depending on a condition, and returns the exit
  status 0.
\<close>

theorem main_exit_status:
  "fst (main cfg) = 0
   \<and> snd (main cfg) =
       get_greeting ''World'' @ ''\<newline>''
       @ ''This is a C++ console application created with nix-polyglot.\<newline>'' @ ''\<newline>''
       @ get_build_info cfg @ ''\<newline>'' @ ''\<newline>''
       @ ''Counting demonstration:\<newline>''
       @ ''Count: 0\<newline>'' @ ''Count: 1\<newline>'' @ ''Count: 2\<newline>'' @ ''Count: 3\<newline>'' @ ''Count: 4\<newline>''"
proof -
  have n: "nat (sint (5 :: 32 word)) = 5"
    by simp
  have u: "[0..<5] = [0, 1, 2, 3, 4 :: nat]"
    by (simp add: upt_rec)
  have "concat (map count_line [0..<nat (sint (5 :: 32 word))]) =
      ''Count: 0\<newline>'' @ ''Count: 1\<newline>'' @ ''Count: 2\<newline>'' @ ''Count: 3\<newline>'' @ ''Count: 4\<newline>''"
    unfolding n u by (simp add: count_line_def show_int_def show_nat.simps digit_char_def)
  then show ?thesis
    by (simp add: main_def print_count_eq del: upt.simps)
qed

theorem main_exit_status_witness:
  "main \<lparr>DEBUG_BUILD = False, RELEASE_BUILD = False, clang = None, gnuc = None, cplusplus = 201703\<rparr> =
     (0, ''Hello, World from C++! '' @ [CHR 0xF0, CHR 0x9F, CHR 0x9A, CHR 0x80] @ ''\<newline>''
       @ ''This is a C++ console application created with nix-polyglot.\<newline>'' @ ''\<newline>''
       @ [CHR 0xF0, CHR 0x9F, CHR 0x93, CHR 0xA6] @ '' Standard build\<newline>''
       @ ''Compiler: Unknown compiler\<newline>''
       @ ''C++ Standard: 201703\<newline>'' @ ''\<newline>''
       @ ''Counting demonstration:\<newline>''
       @ ''Count: 0\<newline>'' @ ''Count: 1\<newline>'' @ ''Count: 2\<newline>'' @ ''Count: 3\<newline>'' @ ''Count: 4\<newline>'')"
  using main_exit_status [of "\<lparr>DEBUG_BUILD = False, RELEASE_BUILD = False, clang = None,
      gnuc = None, cplusplus = 201703\<rparr>"]
  by (simp add: prod_eq_iff get_greeting_def rocket_def get_build_info_def build_mode_cases
      compiler_id_def show_int_def show_nat.simps digit_char_def)

section \<open>The test runner\<close>

lemma sint_of_nat_32:
  assumes "n < 2 ^ 31"
  shows "sint (of_nat n :: 32 word) = int n"
proof -
  have "sint (of_nat n :: 32 word) = signed_take_bit 31 (int n)"
    by (simp add: signed_of_nat)
  moreover have "- (2 ^ 31) \<le> int n" "int n < 2 ^ 31"
    using assms by simp_all
  ultimately show ?thesis
    by (simp add: signed_take_bit_int_eq_self)
qed

lemma test_assert_count: "test_count (test_assert condition test_name s) = test_count s + 1"
  by (simp add: test_assert_def Let_def)

lemma test_assert_passed:
  "test_passed (test_assert condition test_name s) =
     (if condition then test_passed s + 1 else test_passed s)"
  by (simp add: test_assert_def Let_def)

lemma run_checks_count: "test_count (run_checks cs s) = test_count s + of_nat (length cs)"
  by (induction cs s rule: run_checks.induct) (simp_all add: test_assert_count)

lemma run_checks_passed:
  "test_passed (run_checks cs s) = test_passed s + of_nat (length (filter fst cs))"
  by (induction cs s rule: run_checks.induct) (simp_all add: test_assert_passed)

lemma length_filter_all: "(length (filter P xs) = length xs) = list_all P xs"
proof (induction xs)
  case Nil
  show ?case by simp
next
  case (Cons x xs)
  have "length (filter P xs) \<le> length xs"
    by (rule length_filter_le)
  then have "length (filter P xs) \<noteq> Suc (length xs)"
    by linarith
  with Cons show ?case
    by auto
qed

lemma checks_conditions: "map fst (checks cfg) = [True, True, True, True, True]"
proof -
  have "str_find (get_build_info cfg) ''build'' \<noteq> None"
    unfolding get_build_info_def using build_mode_build by (rule str_find_append)
  moreover have "get_build_info cfg \<noteq> []"
    by (simp add: get_build_info_def)
  moreover have "str_find (get_greeting ''Test'') ''Hello, Test'' \<noteq> None"
    by (simp add: get_greeting_def)
  moreover have "str_find (get_greeting ''Test'') ''C++'' \<noteq> None"
    by (simp add: get_greeting_def)
  moreover have "str_find get_greeting_default ''World'' \<noteq> None"
    by (simp add: get_greeting_default_def get_greeting_def)
  ultimately show ?thesis
    by (simp add: checks_def Let_def)
qed

lemma tally_after:
  fixes cs :: "(bool \<times> string) list"
  assumes "length cs < 2 ^ 31"
  shows "sint (test_count (run_checks cs start)) = int (length cs)"
    and "sint (test_passed (run_checks cs start)) = int (length (filter fst cs))"
    and "sint (test_failed (run_checks cs start)) = int (length (filter (\<lambda>c. \<not> fst c) cs))"
proof -
  have le: "length (filter fst cs) \<le> length cs"
    by (rule length_filter_le)
  have count: "test_count (run_checks cs start) = of_nat (length cs)"
    by (simp add: run_checks_count start_def)
  have passed: "test_passed (run_checks cs start) = of_nat (length (filter fst cs))"
    by (simp add: run_checks_passed start_def)
  have split: "length cs = length (filter fst cs) + length (filter (\<lambda>c. \<not> fst c) cs)"
    by (rule sum_length_filter_compl [symmetric])
  have "test_failed (run_checks cs start) =
      (of_nat (length cs) :: 32 word) - of_nat (length (filter fst cs))"
    by (simp only: test_failed_def count passed)
  also have "\<dots> = of_nat (length (filter (\<lambda>c. \<not> fst c) cs))"
    by (subst split) simp
  finally have failed: "test_failed (run_checks cs start) = of_nat (length (filter (\<lambda>c. \<not> fst c) cs))" .
  show "sint (test_count (run_checks cs start)) = int (length cs)"
    unfolding count using assms by (rule sint_of_nat_32)
  show "sint (test_passed (run_checks cs start)) = int (length (filter fst cs))"
    unfolding passed using le assms by (intro sint_of_nat_32) linarith
  show "sint (test_failed (run_checks cs start)) = int (length (filter (\<lambda>c. \<not> fst c) cs))"
    unfolding failed using split assms by (intro sint_of_nat_32) linarith
qed

text \<open>
  Claim C2. A call of \<^verbatim>\<open>test_assert\<close> adds one to the run count, and one to the passed
  count exactly when the condition holds. So after the first \<open>k\<close> checks of any sequence
  (shorter than \<open>2^31\<close>, as the five checks of the runner are), started from the
  initial tally, the run count is \<open>k\<close>: a check that fails does not keep the later
  ones from running; the passed count is the number of conditions that held, at most the
  run count; and the failed count, run minus passed, is the number of conditions that did
  not hold.
\<close>

theorem test_assert_tally:
  fixes cs :: "(bool \<times> string) list"
  assumes "length cs < 2 ^ 31" and "k \<le> length cs"
  shows "test_count (test_assert condition test_name s) = test_count s + 1
   \<and> test_passed (test_assert condition test_name s) =
       (if condition then test_passed s + 1 else test_passed s)
   \<and> (let t = run_checks (take k cs) start in
         sint (test_count t) = int k
       \<and> sint (test_passed t) = int (length (filter fst (take k cs)))
       \<and> test_passed t \<le>s test_count t
       \<and> sint (test_failed t) = sint (test_count t) - sint (test_passed t)
       \<and> sint (test_failed t) = int (length (filter (\<lambda>c. \<not> fst c) (take k cs))))
   \<and> length (checks cfg) = 5"
proof -
  let ?t = "run_checks (take k cs) start"
  have len: "length (take k cs) = k"
    using assms(2) by simp
  then have bound: "length (take k cs) < 2 ^ 31"
    using assms by linarith
  have count: "sint (test_count ?t) = int k"
    using tally_after(1) [OF bound] len by simp
  have passed: "sint (test_passed ?t) = int (length (filter fst (take k cs)))"
    using bound by (rule tally_after(2))
  have failed: "sint (test_failed ?t) = int (length (filter (\<lambda>c. \<not> fst c) (take k cs)))"
    using bound by (rule tally_after(3))
  have "length (filter fst (take k cs)) \<le> length (take k cs)"
    by (rule length_filter_le)
  then have le: "test_passed ?t \<le>s test_count ?t"
    unfolding word_sle_eq count passed len by simp
  have "length (take k cs) =
      length (filter fst (take k cs)) + length (filter (\<lambda>c. \<not> fst c) (take k cs))"
    by (rule sum_length_filter_compl [symmetric])
  then have diff: "sint (test_failed ?t) = sint (test_count ?t) - sint (test_passed ?t)"
    unfolding count passed failed len by linarith
  have five: "length (checks cfg) = 5"
    by (simp add: checks_def Let_def)
  from count passed le diff failed five show ?thesis
    by (simp add: test_assert_count test_assert_passed Let_def)
qed

theorem test_assert_tally_witness:
  "length [(True, ''first''), (False, ''second''), (True, ''third'')] < 2 ^ 31
   \<and> (2 :: nat) \<le> length [(True, ''first''), (False, ''second''), (True, ''third'')]
   \<and> sint (test_count (run_checks [(True, ''first''), (False, ''second'')] start)) = 2
   \<and> sint (test_passed (run_checks [(True, ''first''), (False, ''second'')] start)) = 1
   \<and> sint (test_failed (run_checks [(True, ''first''), (False, ''second'')] start)) = 1
   \<and> length (checks \<lparr>DEBUG_BUILD = True, RELEASE_BUILD = False, clang = None,
          gnuc = None, cplusplus = 201103\<rparr>) < 2 ^ 31
   \<and> (3 :: nat) \<le> length (checks \<lparr>DEBUG_BUILD = True, RELEASE_BUILD = False, clang = None,
          gnuc = None, cplusplus = 201103\<rparr>)
   \<and> sint (test_count (run_checks (take 3 (checks \<lparr>DEBUG_BUILD = True, RELEASE_BUILD = False,
          clang = None, gnuc = None, cplusplus = 201103\<rparr>)) start)) = 3
   \<and> sint (test_passed (run_checks (take 3 (checks \<lparr>DEBUG_BUILD = True, RELEASE_BUILD = False,
          clang = None, gnuc = None, cplusplus = 201103\<rparr>)) start)) = 3
   \<and> sint (test_failed (run_checks (take 3 (checks \<lparr>DEBUG_BUILD = True, RELEASE_BUILD = False,
          clang = None, gnuc = None, cplusplus = 201103\<rparr>)) start)) = 0"
proof -
  let ?cfg = "\<lparr>DEBUG_BUILD = True, RELEASE_BUILD = False, clang = None,
          gnuc = None, cplusplus = 201103\<rparr>"
  have h1: "length [(True, ''first''), (False, ''second''), (True, ''third'')] < 2 ^ 31"
    by simp
  have h2: "(2 :: nat) \<le> length [(True, ''first''), (False, ''second''), (True, ''third'')]"
    by simp
  have t: "take 2 [(True, ''first''), (False, ''second''), (True, ''third'')] =
      [(True, ''first''), (False, ''second'')]"
    by (simp add: take_Suc_conv_app_nth numeral_2_eq_2)
  have g1: "length (checks ?cfg) < 2 ^ 31"
    by (simp add: checks_def Let_def)
  have g2: "(3 :: nat) \<le> length (checks ?cfg)"
    by (simp add: checks_def Let_def)
  have "map fst (take 3 (checks ?cfg)) = take 3 (map fst (checks ?cfg))"
    by (rule take_map [symmetric])
  then have conds: "map fst (take 3 (checks ?cfg)) = [True, True, True]"
    unfolding checks_conditions by (simp add: numeral_3_eq_3)
  have "length (filter fst (take 3 (checks ?cfg))) = length (filter (\<lambda>b. b) (map fst (take 3 (checks ?cfg))))"
    by (simp add: filter_map o_def)
  then have p: "length (filter fst (take 3 (checks ?cfg))) = 3"
    unfolding conds by simp
  have "length (filter (\<lambda>c. \<not> fst c) (take 3 (checks ?cfg))) = length (filter (\<lambda>b. \<not> b) (map fst (take 3 (checks ?cfg))))"
    by (simp add: filter_map o_def)
  then have f: "length (filter (\<lambda>c. \<not> fst c) (take 3 (checks ?cfg))) = 0"
    unfolding conds by simp
  have first: "sint (test_count (run_checks [(True, ''first''), (False, ''second'')] start)) = 2
   \<and> sint (test_passed (run_checks [(True, ''first''), (False, ''second'')] start)) = 1
   \<and> sint (test_failed (run_checks [(True, ''first''), (False, ''second'')] start)) = 1"
    using test_assert_tally [OF h1 h2, where condition = True and test_name = "''first''"
        and s = start and cfg = ?cfg]
    unfolding t Let_def by simp
  have second: "sint (test_count (run_checks (take 3 (checks ?cfg)) start)) = 3
   \<and> sint (test_passed (run_checks (take 3 (checks ?cfg)) start)) = 3
   \<and> sint (test_failed (run_checks (take 3 (checks ?cfg)) start)) = 0"
    using test_assert_tally [OF g1 g2, where condition = True and test_name = "''first''"
        and s = start and cfg = ?cfg]
    unfolding Let_def p f by simp
  from h1 h2 g1 g2 first second show ?thesis
    by blast
qed

text \<open>
  Claim C5. The exit status of the test runner is 0 exactly when the passed count equals
  the run count after the checks, and 1 otherwise. For a sequence of checks run from the
  initial tally this is: 0 exactly when every condition held. The five checks of the
  runner hold for every configuration, so its exit status is 0.
\<close>

theorem test_main_exit_status:
  fixes cs :: "(bool \<times> string) list"
  shows "(fst (results s) = 0) = (test_passed s = test_count s)
   \<and> (fst (results s) = 0 \<or> fst (results s) = 1)
   \<and> (fst (test_main cfg) = 0) =
       (test_passed (run_checks (checks cfg) start) = test_count (run_checks (checks cfg) start))
   \<and> fst (test_main cfg) = 0
   \<and> (length cs < 2 ^ 31 \<longrightarrow>
        fst (results (run_checks cs start)) = (if list_all fst cs then 0 else 1))"
proof -
  have status: "fst (results s) = (if test_passed s = test_count s then 0 else 1)" for s
    by (simp add: results_def Let_def)
  have general: "fst (results (run_checks cs start)) = (if list_all fst cs then 0 else 1)"
    if bound: "length cs < 2 ^ 31" for cs :: "(bool \<times> string) list"
  proof -
    have "(test_passed (run_checks cs start) = test_count (run_checks cs start)) = list_all fst cs"
    proof
      assume "test_passed (run_checks cs start) = test_count (run_checks cs start)"
      then have "sint (test_passed (run_checks cs start)) = sint (test_count (run_checks cs start))"
        by simp
      then have "length (filter fst cs) = length cs"
        unfolding tally_after(1) [OF bound] tally_after(2) [OF bound] by simp
      then show "list_all fst cs"
        by (simp only: length_filter_all)
    next
      assume "list_all fst cs"
      then have "length (filter fst cs) = length cs"
        by (simp only: length_filter_all)
      then show "test_passed (run_checks cs start) = test_count (run_checks cs start)"
        by (simp add: run_checks_count run_checks_passed start_def)
    qed
    then show ?thesis
      by (simp only: status)
  qed
  have "list_all fst (checks cfg)"
  proof -
    have "list_all (\<lambda>b. b) (map fst (checks cfg))"
      unfolding checks_conditions by simp
    then show ?thesis
      by (simp add: list.pred_map o_def)
  qed
  moreover have "length (checks cfg) < 2 ^ 31"
    by (simp add: checks_def Let_def)
  ultimately have success: "fst (test_main cfg) = 0"
    unfolding test_main_def by (simp add: general)
  have iff: "(fst (results s) = 0) = (test_passed s = test_count s)" for s
    by (simp add: status)
  have range: "fst (results s) = 0 \<or> fst (results s) = 1"
    by (simp add: status)
  have main_iff: "(fst (test_main cfg) = 0) =
       (test_passed (run_checks (checks cfg) start) = test_count (run_checks (checks cfg) start))"
    unfolding test_main_def by (rule iff)
  from iff [of s] range main_iff success general show ?thesis
    by blast
qed

theorem test_main_exit_status_witness:
  "length [(True, ''first''), (False, ''second'')] < 2 ^ 31
   \<and> fst (results (run_checks [(True, ''first''), (False, ''second'')] start)) = 1
   \<and> fst (results (run_checks [(True, ''first''), (True, ''second'')] start)) = 0
   \<and> fst (test_main \<lparr>DEBUG_BUILD = True, RELEASE_BUILD = False, clang = None, gnuc = None,
        cplusplus = 201103\<rparr>) = 0"
  using test_main_exit_status [where s = start and cfg = "\<lparr>DEBUG_BUILD = True,
        RELEASE_BUILD = False, clang = None, gnuc = None, cplusplus = 201103\<rparr>"
        and cs = "[(True, ''first''), (False, ''second'')]"]
    test_main_exit_status [where s = start and cfg = "\<lparr>DEBUG_BUILD = True,
        RELEASE_BUILD = False, clang = None, gnuc = None, cplusplus = 201103\<rparr>"
        and cs = "[(True, ''first''), (True, ''second'')]"]
  by simp

end
